theory Spec2Isabelle
  imports Main "HOL-Library.AList"
begin

section \<open>Python values and exceptions\<close>

text \<open>
  The tool servers exchange JSON-like Python values. Numbers are modelled as integers;
  a dict is an association list read through \<open>map_of\<close>.
\<close>

datatype json =
    JNull
  | JBool bool
  | JNum int
  | JStr string
  | JList "json list"
  | JDict "(string \<times> json) list"

text \<open>
  Exceptions are values. \<open>ResponseError\<close> is the Amadeus client's exception and carries
  its string form; \<open>OtherError\<close> stands for any other exception of a collaborator
  (a network failure of \<open>requests\<close>, a failing model call, a tool server that
  cannot be started). \<open>ValueError\<close> and \<open>GraphRecursionError\<close> are raised by the graph
  library that runs the chatbot; \<open>ToolInvocationError\<close> is the exception into which the
  library's tool node wraps a tool call whose arguments the tool rejects, and carries the
  message of that exception.
\<close>

datatype py_error =
    KeyError
  | IndexError
  | TypeError
  | AttributeError
  | ValueError
  | GraphRecursionError
  | ResponseError string
  | ToolInvocationError string
  | OtherError string

definition bind_err :: "'e + 'a \<Rightarrow> ('a \<Rightarrow> 'e + 'b) \<Rightarrow> 'e + 'b" where
  "bind_err r f = (case r of Inl e \<Rightarrow> Inl e | Inr v \<Rightarrow> f v)"

text \<open>\<open>x[k]\<close> with a string key.\<close>

fun getitem :: "json \<Rightarrow> string \<Rightarrow> py_error + json" where
  "getitem (JDict kvs) k = (case map_of kvs k of None \<Rightarrow> Inl KeyError | Some v \<Rightarrow> Inr v)"
| "getitem _ k = Inl TypeError"

text \<open>\<open>x[0]\<close>: the first element of a list or string, the key \<open>0\<close> of a dict (never
  present, the keys being strings).\<close>

fun getitem0 :: "json \<Rightarrow> py_error + json" where
  "getitem0 (JList []) = Inl IndexError"
| "getitem0 (JList (x # xs)) = Inr x"
| "getitem0 (JStr []) = Inl IndexError"
| "getitem0 (JStr (c # cs)) = Inr (JStr [c])"
| "getitem0 (JDict kvs) = Inl KeyError"
| "getitem0 _ = Inl TypeError"

text \<open>\<open>x.get(k, d)\<close>; \<open>x.get(k)\<close> is \<open>py_get x k JNull\<close>.\<close>

fun py_get :: "json \<Rightarrow> string \<Rightarrow> json \<Rightarrow> py_error + json" where
  "py_get (JDict kvs) k d = Inr (case map_of kvs k of None \<Rightarrow> d | Some v \<Rightarrow> v)"
| "py_get _ k d = Inl AttributeError"

text \<open>Truth value of a Python object, as \<open>not offers\<close> tests it.\<close>

fun truthy :: "json \<Rightarrow> bool" where
  "truthy JNull = False"
| "truthy (JBool b) = b"
| "truthy (JNum n) = (n \<noteq> 0)"
| "truthy (JStr s) = (s \<noteq> [])"
| "truthy (JList xs) = (xs \<noteq> [])"
| "truthy (JDict kvs) = (kvs \<noteq> [])"

text \<open>The elements a \<open>for\<close> loop visits.\<close>

fun py_iter :: "json \<Rightarrow> py_error + json list" where
  "py_iter (JList xs) = Inr xs"
| "py_iter (JDict kvs) = Inr (map (\<lambda>kv. JStr (fst kv)) kvs)"
| "py_iter (JStr s) = Inr (map (\<lambda>c. JStr [c]) s)"
| "py_iter _ = Inl TypeError"

section \<open>The flight tool server (flights_mcp.py)\<close>

text \<open>
  The lines both tools share: from \<open>itinerary = offer["itineraries"][0]["segments"]\<close> to
  the summary dict, the subscripts evaluated in the order of the source.
\<close>

definition summarize :: "json \<Rightarrow> py_error + json" where
  "summarize offer =
     bind_err (getitem offer ''itineraries'') (\<lambda>its.
     bind_err (getitem0 its) (\<lambda>it0.
     bind_err (getitem it0 ''segments'') (\<lambda>itinerary.
     bind_err (getitem0 itinerary) (\<lambda>segment.
     bind_err (getitem segment ''departure'') (\<lambda>dep1.
     bind_err (getitem dep1 ''iataCode'') (\<lambda>departure.
     bind_err (getitem segment ''arrival'') (\<lambda>arr1.
     bind_err (getitem arr1 ''iataCode'') (\<lambda>arrival.
     bind_err (getitem segment ''departure'') (\<lambda>dep2.
     bind_err (getitem dep2 ''at'') (\<lambda>dep_time.
     bind_err (getitem segment ''arrival'') (\<lambda>arr2.
     bind_err (getitem arr2 ''at'') (\<lambda>arr_time.
     bind_err (getitem segment ''carrierCode'') (\<lambda>carrier.
     bind_err (getitem offer ''itineraries'') (\<lambda>its2.
     bind_err (getitem0 its2) (\<lambda>it2.
     bind_err (py_get it2 ''duration'' JNull) (\<lambda>duration.
     bind_err (py_get offer ''price'' (JDict [])) (\<lambda>p1.
     bind_err (py_get p1 ''total'' JNull) (\<lambda>price.
     bind_err (py_get offer ''price'' (JDict [])) (\<lambda>p2.
     bind_err (py_get p2 ''currency'' JNull) (\<lambda>currency.
       Inr (JDict
         [(''airline'', carrier),
          (''from'', departure),
          (''to'', arrival),
          (''departure_time'', dep_time),
          (''arrival_time'', arr_time),
          (''duration'', duration),
          (''total_price'', price),
          (''currency_code'', currency)])))))))))))))))))))))"

text \<open>The loop of \<open>search_flights\<close>: the first offer that raises ends it.\<close>

fun summarize_all :: "json list \<Rightarrow> py_error + json list" where
  "summarize_all [] = Inr []"
| "summarize_all (offer # offers) =
     bind_err (summarize offer) (\<lambda>s.
     bind_err (summarize_all offers) (\<lambda>ss. Inr (s # ss)))"

text \<open>\<open>except ResponseError as error: return {"error": str(error)}\<close>: only a
  \<open>ResponseError\<close> is caught, every other exception of the \<open>try\<close> body propagates.\<close>

definition except_ResponseError :: "py_error + json \<Rightarrow> py_error + json" where
  "except_ResponseError r =
     (case r of
        Inl (ResponseError s) \<Rightarrow> Inr (JDict [(''error'', JStr s)])
      | _ \<Rightarrow> r)"

text \<open>
  Two collaborators are parameters: \<open>airport\<close> is the outcome of \<open>get_airport_code\<close>
  (an HTTP lookup: the code found, \<open>None\<close>, or an exception of the request), and
  \<open>backend\<close> is the call \<open>amadeus.shopping.flight_offers_search.get\<close> on its keyword
  arguments, which returns \<open>response.data\<close> or raises.
\<close>

definition search_flights ::
  "(string \<Rightarrow> py_error + json) \<Rightarrow> (json \<Rightarrow> py_error + json) \<Rightarrow>
   string \<Rightarrow> string \<Rightarrow> string \<Rightarrow> int \<Rightarrow> py_error + json" where
  "search_flights airport backend origin destination departure_date num_adults =
     bind_err (airport origin) (\<lambda>origin'.
     bind_err (airport destination) (\<lambda>destination'.
       except_ResponseError
         (bind_err (backend (JDict
              [(''originLocationCode'', origin'),
               (''destinationLocationCode'', destination'),
               (''departureDate'', JStr departure_date),
               (''adults'', JNum num_adults),
               (''max'', JNum 5)])) (\<lambda>offers.
          bind_err (py_iter offers) (\<lambda>each.
          bind_err (summarize_all each) (\<lambda>summarized_offers.
            Inr (JDict
              [(''origin'', origin'),
               (''destination'', destination'),
               (''departure_date'', JStr departure_date),
               (''num_adults'', JNum num_adults),
               (''num_results'', JNum (int (length summarized_offers))),
               (''flights'', JList summarized_offers)])))))))"

definition get_cheapest_flight ::
  "(string \<Rightarrow> py_error + json) \<Rightarrow> (json \<Rightarrow> py_error + json) \<Rightarrow>
   string \<Rightarrow> string \<Rightarrow> py_error + json" where
  "get_cheapest_flight airport backend origin destination =
     bind_err (airport origin) (\<lambda>origin'.
     bind_err (airport destination) (\<lambda>destination'.
       except_ResponseError
         (bind_err (backend (JDict
              [(''originLocationCode'', origin'),
               (''destinationLocationCode'', destination'),
               (''max'', JNum 1),
               (''sort'', JStr ''price'')])) (\<lambda>offers.
            if \<not> truthy offers then Inr (JDict [(''message'', JStr ''No flights found.'')])
            else bind_err (getitem0 offers) summarize))))"


section \<open>The chatbot (travel_planner_chatbot.py)\<close>

subsection \<open>Messages and tools\<close>

text \<open>
  The message classes of the chat library, with the fields the graph reads. A tool call
  has a name, arguments and an id. Every message starts with its own id, by which the
  reducer of the \<open>messages\<close> channel tells messages apart: a \<open>HumanMessage\<close> has id and
  content; an \<open>AIMessage\<close> has id, content and tool calls; a \<open>ToolMessage\<close> has id,
  content, tool name, the id of the call it answers, and a status. A message that is
  created without an id is given a \<open>uuid4\<close> by the reducer before it is merged; here the
  one who creates the message supplies that id.
\<close>

record tool_call =
  call_name :: string
  call_args :: json
  call_id :: string

datatype message =
    HumanMessage string string
  | AIMessage string string "tool_call list"
  | ToolMessage string string string string string

fun message_id :: "message \<Rightarrow> string" where
  "message_id (HumanMessage i content) = i"
| "message_id (AIMessage i content calls) = i"
| "message_id (ToolMessage i content name tool_call_id status) = i"

text \<open>\<open>isinstance(m, AIMessage)\<close>.\<close>

fun is_AIMessage :: "message \<Rightarrow> bool" where
  "is_AIMessage (AIMessage i content calls) = True"
| "is_AIMessage _ = False"

text \<open>The \<open>tool_calls\<close> attribute: only an \<open>AIMessage\<close> has one.\<close>

fun tool_calls :: "message \<Rightarrow> tool_call list" where
  "tool_calls (AIMessage i content calls) = calls"
| "tool_calls _ = []"

text \<open>A tool: its name and what invoking it on arguments gives, the output or the
  exception raised.\<close>

record tool =
  tool_name :: string
  tool_func :: "json \<Rightarrow> py_error + string"

text \<open>
  What lies outside the module is gathered in one record: tool discovery on each MCP
  server, the two local tools' bodies (a web search; a model call on the itinerary
  prompt), the chat model, which is given the bound tools and the history and returns a
  message or raises, the ids drawn for the tool messages of one round (\<open>uuid4 E ms i\<close> is
  the id drawn for the answer to call \<open>i\<close> when the history is \<open>ms\<close>), and the time the
  backend of a tool call takes to answer.
\<close>

record env =
  discover :: "string \<Rightarrow> py_error + tool list"
  search_run :: "json \<Rightarrow> py_error + string"
  itinerary_run :: "json \<Rightarrow> py_error + string"
  llm :: "tool list \<Rightarrow> message list \<Rightarrow> py_error + message"
  uuid4 :: "message list \<Rightarrow> nat \<Rightarrow> string"
  answer_time :: "tool_call \<Rightarrow> nat"

subsection \<open>Tool aggregation\<close>

text \<open>The keys of \<open>SERVERS\<close>, in the order of the dict.\<close>

definition SERVERS :: "string list" where
  "SERVERS = [''hotel'', ''flight'', ''weather'', ''places'']"

text \<open>
  \<open>asyncio.gather\<close> without \<open>return_exceptions\<close>: the results in the order of the
  awaitables, or an exception of one of them.
\<close>

fun gather :: "('e + 'a) list \<Rightarrow> 'e + 'a list" where
  "gather [] = Inr []"
| "gather (r # rs) = bind_err r (\<lambda>v. bind_err (gather rs) (\<lambda>vs. Inr (v # vs)))"

text \<open>\<open>mcp_client.get_tools()\<close>: the client loads the tools of every configured server,
  gathers the loads and concatenates the lists.\<close>

definition get_tools :: "(string \<Rightarrow> py_error + tool list) \<Rightarrow> py_error + tool list" where
  "get_tools disc = bind_err (gather (map disc SERVERS)) (\<lambda>tools_list. Inr (concat tools_list))"

text \<open>\<open>load_mcp_tools\<close>: any exception of the one call is caught, reported by \<open>print\<close>
  (the first component: the exceptions warned about) and replaced by the empty list.\<close>

definition load_mcp_tools :: "py_error + tool list \<Rightarrow> py_error list \<times> tool list" where
  "load_mcp_tools r = (case r of Inl e \<Rightarrow> ([e], []) | Inr ts \<Rightarrow> ([], ts))"

definition mcp_tools :: "env \<Rightarrow> tool list" where
  "mcp_tools E = snd (load_mcp_tools (get_tools (discover E)))"

definition search_tool :: "env \<Rightarrow> tool" where
  "search_tool E = \<lparr>tool_name = ''duckduckgo_search'', tool_func = search_run E\<rparr>"

definition build_itinerary :: "env \<Rightarrow> tool" where
  "build_itinerary E = \<lparr>tool_name = ''build_itinerary'', tool_func = itinerary_run E\<rparr>"

definition tools :: "env \<Rightarrow> tool list" where
  "tools E = [search_tool E, build_itinerary E] @ mcp_tools E"

text \<open>\<open>llm.bind_tools(tools, tool_choice="auto") if tools else llm\<close>.\<close>

definition llm_with_tools :: "env \<Rightarrow> message list \<Rightarrow> py_error + message" where
  "llm_with_tools E = (if tools E \<noteq> [] then llm E (tools E) else llm E [])"

subsection \<open>Nodes\<close>

text \<open>
  The reducer of the \<open>messages\<close> channel, \<open>add_messages\<close>, takes the messages of the
  update one by one: a message whose id is already in the list replaces the message at
  the position recorded for that id (the last one that carries it), every other message
  is appended.
\<close>

fun replace_first :: "message \<Rightarrow> message list \<Rightarrow> message list" where
  "replace_first m [] = []"
| "replace_first m (x # xs) =
     (if message_id x = message_id m then m # xs else x # replace_first m xs)"

definition merge_message :: "message list \<Rightarrow> message \<Rightarrow> message list" where
  "merge_message merged m =
     (if message_id m \<in> set (map message_id merged)
      then rev (replace_first m (rev merged))
      else merged @ [m])"

definition add_messages :: "message list \<Rightarrow> message list \<Rightarrow> message list" where
  "add_messages left right = foldl merge_message left right"

definition chat_node :: "env \<Rightarrow> message list \<Rightarrow> py_error + message list" where
  "chat_node E messages = bind_err (llm_with_tools E messages) (\<lambda>response. Inr [response])"

text \<open>
  \<open>ToolNode(tools)\<close> keeps a dict from tool name to tool, filled in the order of the list:
  a later tool of the same name replaces the earlier one in place.
\<close>

definition tools_by_name :: "tool list \<Rightarrow> (string \<times> tool) list" where
  "tools_by_name ts = foldl (\<lambda>d t. AList.update (tool_name t) t d) [] ts"

fun join :: "string \<Rightarrow> string list \<Rightarrow> string" where
  "join sep [] = []"
| "join sep [x] = x"
| "join sep (x # y # ys) = x @ sep @ join sep (y # ys)"

text \<open>
  One tool call. A name the node does not know is answered by an error message. A known
  tool is invoked: its output becomes a \<open>ToolMessage\<close> carrying the call's name and id; a
  \<open>ToolInvocationError\<close> is answered by an error message holding the exception's message;
  every other exception of the tool is raised again. \<open>new_id\<close> is the id of the message.
\<close>

definition run_one :: "tool list \<Rightarrow> string \<Rightarrow> tool_call \<Rightarrow> py_error + message" where
  "run_one ts new_id call =
     (case map_of (tools_by_name ts) (call_name call) of
        None \<Rightarrow>
          Inr (ToolMessage new_id
            (''Error: '' @ call_name call @ '' is not a valid tool, try one of [''
               @ join '', '' (map fst (tools_by_name ts)) @ ''].'')
            (call_name call) (call_id call) ''error'')
      | Some t \<Rightarrow>
          (case tool_func t (call_args call) of
             Inr out \<Rightarrow> Inr (ToolMessage new_id out (call_name call) (call_id call) ''success'')
           | Inl (ToolInvocationError msg) \<Rightarrow>
               Inr (ToolMessage new_id msg (call_name call) (call_id call) ''error'')
           | Inl e \<Rightarrow> Inl e))"

text \<open>
  The graph is run from the event loop, where the tool node awaits its calls together
  (\<open>asyncio.gather\<close>). \<open>arrivals\<close> lists the positions of the calls in the order in which
  their backends answer. The answers are taken in that order: an answer is stored at the
  position of its call, and the first call that raises ends the round with its exception.
  When every position is filled the outputs are returned by position.
\<close>

definition arrivals :: "(tool_call \<Rightarrow> nat) \<Rightarrow> tool_call list \<Rightarrow> nat list" where
  "arrivals time calls = sort_key (\<lambda>i. time (calls ! i)) [0..<length calls]"

fun gather_by_arrival ::
  "(nat \<Rightarrow> py_error + 'a) \<Rightarrow> nat list \<Rightarrow> 'a option list \<Rightarrow> py_error + 'a option list" where
  "gather_by_arrival run [] outputs = Inr outputs"
| "gather_by_arrival run (i # order) outputs =
     (case run i of
        Inl e \<Rightarrow> Inl e
      | Inr v \<Rightarrow> gather_by_arrival run order (outputs[i := Some v]))"

definition run_calls :: "env \<Rightarrow> message list \<Rightarrow> tool_call list \<Rightarrow> py_error + message list" where
  "run_calls E messages calls =
     bind_err
       (gather_by_arrival (\<lambda>i. run_one (tools E) (uuid4 E messages i) (calls ! i))
          (arrivals (answer_time E) calls) (replicate (length calls) None))
       (\<lambda>outputs. Inr (List.map_filter (\<lambda>output. output) outputs))"

text \<open>The tool node takes the latest \<open>AIMessage\<close> of the history, wherever it stands, and
  runs its tool calls; a history without an \<open>AIMessage\<close> is a \<open>ValueError\<close>.\<close>

definition tool_node :: "env \<Rightarrow> message list \<Rightarrow> py_error + message list" where
  "tool_node E messages =
     (case List.find is_AIMessage (rev messages) of
        None \<Rightarrow> Inl ValueError
      | Some latest_ai_message \<Rightarrow> run_calls E messages (tool_calls latest_ai_message))"

subsection \<open>The state graph\<close>

datatype node = ChatNode | ToolsNode | END

text \<open>\<open>tools_condition\<close>: to the tool node when the last message has tool calls, to the
  end otherwise.\<close>

definition tools_condition :: "message list \<Rightarrow> py_error + node" where
  "tools_condition messages =
     (if messages = [] then Inl ValueError
      else Inr (if tool_calls (last messages) \<noteq> [] then ToolsNode else END))"

text \<open>
  The edges. \<open>tool_node\<close> is \<open>ToolNode(tools) if tools else None\<close>, and the graph has the
  tool node and the conditional edges only when it is not \<open>None\<close>.
\<close>

definition next_node :: "env \<Rightarrow> node \<Rightarrow> message list \<Rightarrow> py_error + node" where
  "next_node E n messages =
     (case n of
        ChatNode \<Rightarrow> (if tools E \<noteq> [] then tools_condition messages else Inr END)
      | ToolsNode \<Rightarrow> Inr ChatNode
      | END \<Rightarrow> Inr END)"

definition exec_node :: "env \<Rightarrow> node \<Rightarrow> message list \<Rightarrow> py_error + message list" where
  "exec_node E n messages =
     (case n of
        ChatNode \<Rightarrow> chat_node E messages
      | ToolsNode \<Rightarrow> tool_node E messages
      | END \<Rightarrow> Inr [])"

subsection \<open>Checkpoints and threads\<close>

text \<open>
  The checkpointer keeps rows of thread id and saved state, here in the order they were
  written. A thread's state is that of its latest row; a thread without a row has no
  messages.
\<close>

type_synonym checkpoint = "string \<times> message list"

definition load :: "checkpoint list \<Rightarrow> string \<Rightarrow> message list" where
  "load cps thread_id =
     (case filter (\<lambda>cp. fst cp = thread_id) cps of
        [] \<Rightarrow> []
      | cp # rest \<Rightarrow> snd (last (cp # rest)))"

definition put :: "checkpoint list \<Rightarrow> string \<Rightarrow> message list \<Rightarrow> checkpoint list" where
  "put cps thread_id messages = cps @ [(thread_id, messages)]"

text \<open>\<open>checkpointer.alist(None)\<close> yields every row, the newest first.\<close>

definition alist :: "checkpoint list \<Rightarrow> checkpoint list" where
  "alist cps = rev cps"

text \<open>\<open>_alist_threads\<close> collects the thread ids in a set and returns \<open>list(threads)\<close>,
  whose order Python leaves open: the result is modelled as the set of its elements.\<close>

definition alist_threads :: "checkpoint list \<Rightarrow> string set" where
  "alist_threads cps = foldl (\<lambda>threads cp. insert (fst cp) threads) {} (alist cps)"

definition retrieve_all_threads :: "checkpoint list \<Rightarrow> string set" where
  "retrieve_all_threads cps = alist_threads cps"

subsection \<open>Running the compiled graph\<close>

text \<open>
  The state of one invocation: the \<open>messages\<close> channel, the checkpointer's rows, and the
  nodes entered so far (kept for the proofs; the program has no such list).
\<close>

record run_state =
  messages :: "message list"
  checkpoints :: "checkpoint list"
  visited :: "node list"

text \<open>
  The graph runtime works in steps. \<open>budget\<close> is the number of steps left of the
  invocation's recursion limit (set by the caller of the compiled graph; the module sets
  none). Before each step the runtime tests the budget: when none is left the invocation
  raises \<open>GraphRecursionError\<close>, also when the end has just been reached. Otherwise an
  invocation that has reached the end returns; one that has not executes the node, merges
  the node's update into the channel, follows the edge and saves a checkpoint. An
  exception of the node or of the edge ends the invocation, and the step saves nothing;
  what the earlier steps saved stays saved.
\<close>

fun run_graph ::
  "env \<Rightarrow> string \<Rightarrow> nat \<Rightarrow> node \<Rightarrow> run_state \<Rightarrow> (py_error + unit) \<times> run_state" where
  "run_graph E thread_id 0 n st = (Inl GraphRecursionError, st)"
| "run_graph E thread_id (Suc budget) END st = (Inr (), st)"
| "run_graph E thread_id (Suc budget) n st =
     (let st1 = st\<lparr>visited := visited st @ [n]\<rparr> in
      case exec_node E n (messages st) of
        Inl e \<Rightarrow> (Inl e, st1)
      | Inr update \<Rightarrow>
          (let messages' = add_messages (messages st) update in
           case next_node E n messages' of
             Inl e \<Rightarrow> (Inl e, st1)
           | Inr n' \<Rightarrow>
               run_graph E thread_id budget n'
                 (st1\<lparr>messages := messages',
                      checkpoints := put (checkpoints st) thread_id messages'\<rparr>)))"

text \<open>
  The input of an invocation: the runtime first saves a row with the thread's state as
  it was, then merges the input into the \<open>messages\<close> channel and saves the merged state.
\<close>

definition apply_input :: "checkpoint list \<Rightarrow> string \<Rightarrow> message list \<Rightarrow> checkpoint list" where
  "apply_input cps thread_id input =
     put (put cps thread_id (load cps thread_id)) thread_id
       (add_messages (load cps thread_id) input)"

text \<open>\<open>chatbot.ainvoke({"messages": input}, config)\<close> with the thread id and the
  recursion limit of \<open>config\<close>. A limit below one is a \<open>ValueError\<close>, raised before
  anything is saved. The edge from \<open>START\<close> leads to the chat node.\<close>

definition invoke ::
  "env \<Rightarrow> nat \<Rightarrow> checkpoint list \<Rightarrow> string \<Rightarrow> message list \<Rightarrow> (py_error + unit) \<times> run_state" where
  "invoke E budget cps thread_id input =
     (if budget < 1
      then (Inl ValueError, \<lparr>messages = load cps thread_id, checkpoints = cps, visited = []\<rparr>)
      else let cps0 = apply_input cps thread_id input in
           run_graph E thread_id budget ChatNode
             \<lparr>messages = load cps0 thread_id, checkpoints = cps0, visited = []\<rparr>)"

section \<open>Expected traces and sample environments\<close>

text \<open>The nodes a run enters when it never reaches the end: chat node and tool node in
  turn, starting from \<open>n\<close>.\<close>

fun alternate :: "node \<Rightarrow> nat \<Rightarrow> node list" where
  "alternate n 0 = []"
| "alternate n (Suc k) = n # alternate (if n = ChatNode then ToolsNode else ChatNode) k"


text \<open>Ids that are new to a history: longer than every id in it, and of a different
  length for each position.\<close>

definition sample_id :: "message list \<Rightarrow> nat \<Rightarrow> string" where
  "sample_id ms i = CHR ''m'' # replicate i (CHR ''+'') @ concat (map message_id ms)"

text \<open>An environment from a discovery outcome and a model that ignores the bound tools.\<close>

definition stub_env ::
  "(string \<Rightarrow> py_error + tool list) \<Rightarrow> (message list \<Rightarrow> py_error + message) \<Rightarrow> env" where
  "stub_env disc model =
     \<lparr>discover = disc,
      search_run = (\<lambda>a. Inr ''no results''),
      itinerary_run = (\<lambda>a. Inr ''plan''),
      llm = (\<lambda>ts. model),
      uuid4 = sample_id,
      answer_time = (\<lambda>call. 0)\<rparr>"

definition unreachable :: "string \<Rightarrow> py_error + tool list" where
  "unreachable s = Inl (OtherError ''unreachable'')"

definition search_call :: tool_call where
  "search_call = \<lparr>call_name = ''duckduckgo_search'', call_args = JDict [], call_id = ''call_1''\<rparr>"


text \<open>A model that asks for a web search whatever the history, and one that answers.\<close>

definition looping_env :: env where
  "looping_env = stub_env unreachable (\<lambda>ms. Inr (AIMessage (sample_id ms 0) [] [search_call]))"

definition answering_env :: env where
  "answering_env =
     stub_env unreachable (\<lambda>ms. Inr (AIMessage (sample_id ms 0) ''Bon voyage'' []))"





text \<open>The hotel server offers one tool, the flight server cannot be reached.\<close>

definition hotel_tool :: tool where
  "hotel_tool = \<lparr>tool_name = ''search_hotels'', tool_func = (\<lambda>a. Inr ''[]'')\<rparr>"

definition flight_down :: "string \<Rightarrow> py_error + tool list" where
  "flight_down s =
     (if s = ''flight'' then Inl (OtherError ''unreachable'')
      else if s = ''hotel'' then Inr [hotel_tool] else Inr [])"

definition flight_down_env :: env where
  "flight_down_env =
     stub_env flight_down (\<lambda>ms. Inr (AIMessage (sample_id ms 0) ''Bon voyage'' []))"

text \<open>The hotel server offers a tool named like the local \<open>build_itinerary\<close>.\<close>

definition remote_itinerary :: tool where
  "remote_itinerary = \<lparr>tool_name = ''build_itinerary'', tool_func = (\<lambda>a. Inr ''remote plan'')\<rparr>"

definition hotel_clash :: "string \<Rightarrow> py_error + tool list" where
  "hotel_clash s = (if s = ''hotel'' then Inr [remote_itinerary] else Inr [])"

definition hotel_clash_env :: env where
  "hotel_clash_env =
     stub_env hotel_clash (\<lambda>ms. Inr (AIMessage (sample_id ms 0) ''Bon voyage'' []))"

section \<open>Properties of the flight tool server\<close>

text \<open>The subscripts and \<open>get\<close> calls of the summary raise lookup errors only, never the
  backend's \<open>ResponseError\<close>.\<close>

definition no_ResponseError :: "py_error + 'a \<Rightarrow> bool" where
  "no_ResponseError r = (case r of Inl (ResponseError s) \<Rightarrow> False | _ \<Rightarrow> True)"

lemma no_ResponseError_Inr: "no_ResponseError (Inr v)"
  by (simp add: no_ResponseError_def)

lemma no_ResponseError_getitem: "no_ResponseError (getitem x k)"
  by (cases x) (simp_all add: no_ResponseError_def split: option.split)

lemma no_ResponseError_getitem0: "no_ResponseError (getitem0 x)"
  by (cases x rule: getitem0.cases) (simp_all add: no_ResponseError_def)

lemma no_ResponseError_py_get: "no_ResponseError (py_get x k d)"
  by (cases x) (simp_all add: no_ResponseError_def)

lemma no_ResponseError_bind:
  "no_ResponseError r \<Longrightarrow> (\<And>v. no_ResponseError (f v)) \<Longrightarrow> no_ResponseError (bind_err r f)"
  by (cases r) (auto simp: bind_err_def no_ResponseError_def split: py_error.splits)

lemma no_ResponseError_summarize: "no_ResponseError (summarize offer)"
  unfolding summarize_def
  by (intro no_ResponseError_bind no_ResponseError_getitem no_ResponseError_getitem0
      no_ResponseError_py_get no_ResponseError_Inr)

lemma except_no_ResponseError: "no_ResponseError r \<Longrightarrow> except_ResponseError r = r"
  by (auto simp: no_ResponseError_def except_ResponseError_def split: sum.splits py_error.splits)

text \<open>
  C9. When both airport lookups return and the backend call raises a \<open>ResponseError\<close>,
  \<open>search_flights\<close> and \<open>get_cheapest_flight\<close> return the dict whose key \<open>"error"\<close> holds
  the string form of the exception; the exception does not reach the caller.
\<close>

theorem response_error_is_caught:
  assumes "airport origin = Inr o'" and "airport destination = Inr d'"
    and "backend (JDict
              [(''originLocationCode'', o'),
               (''destinationLocationCode'', d'),
               (''departureDate'', JStr departure_date),
               (''adults'', JNum num_adults),
               (''max'', JNum 5)]) = Inl (ResponseError s)"
    and "backend (JDict
              [(''originLocationCode'', o'),
               (''destinationLocationCode'', d'),
               (''max'', JNum 1),
               (''sort'', JStr ''price'')]) = Inl (ResponseError s')"
  shows "search_flights airport backend origin destination departure_date num_adults
           = Inr (JDict [(''error'', JStr s)])
       \<and> get_cheapest_flight airport backend origin destination
           = Inr (JDict [(''error'', JStr s')])"
  using assms
  by (simp add: search_flights_def get_cheapest_flight_def bind_err_def except_ResponseError_def)

theorem response_error_is_caught_witness:
  "search_flights (\<lambda>x. Inr (JStr x)) (\<lambda>r. Inl (ResponseError ''[400]''))
       ''DEL'' ''BOM'' ''2025-01-01'' 1
     = Inr (JDict [(''error'', JStr ''[400]'')])
   \<and> get_cheapest_flight (\<lambda>x. Inr (JStr x)) (\<lambda>r. Inl (ResponseError ''[400]''))
       ''DEL'' ''BOM''
     = Inr (JDict [(''error'', JStr ''[400]'')])"
  using response_error_is_caught [of "\<lambda>x. Inr (JStr x)" "''DEL''" "JStr ''DEL''" "''BOM''"
      "JStr ''BOM''" "\<lambda>r. Inl (ResponseError ''[400]'')" "''2025-01-01''" 1 "''[400]''" "''[400]''"]
  by simp

text \<open>
  C10. When the backend returns a list of offers, \<open>get_cheapest_flight\<close> returns
  \<open>{"message": "No flights found."}\<close> for the empty list, and only for a list with a
  first offer does it go on to \<open>offers[0]\<close>, whose summary is then the result: the empty
  list is never indexed.
\<close>

theorem no_flights_found:
  assumes "airport origin = Inr o'" and "airport destination = Inr d'"
    and "backend (JDict
              [(''originLocationCode'', o'),
               (''destinationLocationCode'', d'),
               (''max'', JNum 1),
               (''sort'', JStr ''price'')]) = Inr (JList offers)"
  shows "get_cheapest_flight airport backend origin destination =
           (case offers of
              [] \<Rightarrow> Inr (JDict [(''message'', JStr ''No flights found.'')])
            | offer # rest \<Rightarrow> summarize offer)"
proof (cases offers)
  case Nil
  with assms show ?thesis
    by (simp add: get_cheapest_flight_def bind_err_def except_ResponseError_def)
next
  case (Cons offer rest)
  have "get_cheapest_flight airport backend origin destination
          = except_ResponseError (summarize offer)"
    using assms Cons by (simp add: get_cheapest_flight_def bind_err_def)
  also have "\<dots> = summarize offer"
    by (rule except_no_ResponseError [OF no_ResponseError_summarize])
  finally show ?thesis using Cons by simp
qed

theorem no_flights_found_witness:
  "get_cheapest_flight (\<lambda>x. Inr (JStr x)) (\<lambda>r. Inr (JList [])) ''Delhi'' ''Mumbai''
     = Inr (JDict [(''message'', JStr ''No flights found.'')])"
  using no_flights_found [of "\<lambda>x. Inr (JStr x)" "''Delhi''" "JStr ''Delhi''" "''Mumbai''"
      "JStr ''Mumbai''" "\<lambda>r. Inr (JList [])" "[]"]
  by simp


section \<open>Properties of the reducer and of the tool node\<close>

lemma merge_message_new:
  "message_id m \<notin> set (map message_id left) \<Longrightarrow> merge_message left m = left @ [m]"
  by (simp add: merge_message_def)


lemma add_messages_one:
  "message_id m \<notin> set (map message_id left) \<Longrightarrow> add_messages left [m] = left @ [m]"
  by (simp add: add_messages_def merge_message_new)


lemma tool_calls_AI: "tool_calls m \<noteq> [] \<Longrightarrow> is_AIMessage m"
  by (cases m) simp_all

lemma find_latest: "is_AIMessage m \<Longrightarrow> List.find is_AIMessage (rev (h @ [m])) = Some m"
  by simp

lemma tools_by_name_fold:
  "map_of (foldl (\<lambda>d t. AList.update (tool_name t) t d) d ts) k = Some t \<Longrightarrow>
   t \<in> set ts \<or> map_of d k = Some t"
proof (induction ts arbitrary: d)
  case Nil
  then show ?case by simp
next
  case (Cons a ts)
  from Cons.prems
  have "map_of (foldl (\<lambda>d t. AList.update (tool_name t) t d)
          (AList.update (tool_name a) a d) ts) k = Some t"
    by simp
  then have "t \<in> set ts \<or> map_of (AList.update (tool_name a) a d) k = Some t"
    by (rule Cons.IH)
  then show ?case
    by (auto simp: update_conv' split: if_splits)
qed

lemma tools_by_name_in: "map_of (tools_by_name ts) k = Some t \<Longrightarrow> t \<in> set ts"
  using tools_by_name_fold [of "[]" ts k t] by (simp add: tools_by_name_def)


text \<open>When no tool raises an exception that the node raises again, every call is
  answered.\<close>

lemma run_one_total:
  assumes "\<forall>t \<in> set ts. \<forall>args e. tool_func t args = Inl e \<longrightarrow> (\<exists>msg. e = ToolInvocationError msg)"
  shows "\<exists>m. run_one ts new_id call = Inr m"
proof (cases "map_of (tools_by_name ts) (call_name call)")
  case None
  then show ?thesis by (simp add: run_one_def)
next
  case (Some t)
  then have t: "t \<in> set ts"
    by (rule tools_by_name_in)
  show ?thesis
  proof (cases "tool_func t (call_args call)")
    case (Inl e)
    with assms t obtain msg where "e = ToolInvocationError msg"
      by blast
    with Inl Some show ?thesis by (simp add: run_one_def)
  next
    case (Inr out)
    with Some show ?thesis by (simp add: run_one_def)
  qed
qed

lemma set_arrivals: "set (arrivals time calls) = {..<length calls}"
  by (auto simp: arrivals_def)

text \<open>When every awaited call returns, the outputs stand at the positions of their
  calls, whatever the order of arrival.\<close>

lemma gather_by_arrival_returns:
  "\<forall>i \<in> set order. i < n \<and> run i = Inr (f i) \<Longrightarrow> length outputs = n \<Longrightarrow>
   gather_by_arrival run order outputs
     = Inr (map (\<lambda>i. if i \<in> set order then Some (f i) else outputs ! i) [0..<n])"
proof (induction order arbitrary: outputs)
  case Nil
  then show ?case by (auto simp: list_eq_iff_nth_eq)
next
  case (Cons j order)
  have "gather_by_arrival run order (outputs[j := Some (f j)])
        = Inr (map (\<lambda>i. if i \<in> set order then Some (f i) else (outputs[j := Some (f j)]) ! i)
                 [0..<n])"
    using Cons.prems by (intro Cons.IH) auto
  also have "\<dots> = Inr (map (\<lambda>i. if i \<in> set (j # order) then Some (f i) else outputs ! i) [0..<n])"
    using Cons.prems by (auto simp: nth_list_update)
  finally show ?case
    using Cons.prems by simp
qed


text \<open>A call that raises ends the round: no outputs are returned.\<close>

lemma gather_by_arrival_raises:
  "i \<in> set order \<Longrightarrow> run i = Inl e \<Longrightarrow> \<exists>e'. gather_by_arrival run order outputs = Inl e'"
proof (induction order arbitrary: outputs)
  case Nil
  then show ?case by simp
next
  case (Cons j order)
  show ?case
  proof (cases "run j")
    case (Inl e')
    then show ?thesis by simp
  next
    case (Inr v)
    with Cons.prems have "i \<in> set order"
      by auto
    from Cons.IH [OF this Cons.prems(2)] Inr show ?thesis
      by simp
  qed
qed

lemma map_filter_Some: "List.map_filter (\<lambda>output. output) (map (\<lambda>i. Some (g i)) xs) = map g xs"
  by (induction xs) (simp_all add: List.map_filter_simps)

lemma run_calls_returns:
  assumes "\<forall>i<length calls. run_one (tools E) (uuid4 E ms i) (calls ! i) = Inr (f i)"
  shows "run_calls E ms calls = Inr (map f [0..<length calls])"
proof -
  let ?run = "\<lambda>i. run_one (tools E) (uuid4 E ms i) (calls ! i)"
  let ?order = "arrivals (answer_time E) calls"
  let ?n = "length calls"
  have "\<forall>i \<in> set ?order. i < ?n \<and> ?run i = Inr (f i)"
    using assms by (simp add: set_arrivals)
  then have "gather_by_arrival ?run ?order (replicate ?n None)
        = Inr (map (\<lambda>i. if i \<in> set ?order then Some (f i) else replicate ?n None ! i) [0..<?n])"
    by (rule gather_by_arrival_returns) simp
  also have "\<dots> = Inr (map (\<lambda>i. Some (f i)) [0..<?n])"
    by (simp add: set_arrivals)
  finally show ?thesis
    by (simp add: run_calls_def bind_err_def map_filter_Some)
qed


lemma run_calls_raises:
  assumes "i < length calls" and "run_one (tools E) (uuid4 E ms i) (calls ! i) = Inl e"
  shows "\<exists>e'. run_calls E ms calls = Inl e'"
proof -
  let ?run = "\<lambda>i. run_one (tools E) (uuid4 E ms i) (calls ! i)"
  have i: "i \<in> set (arrivals (answer_time E) calls)"
    using assms(1) by (simp add: set_arrivals)
  have "?run i = Inl e"
    using assms(2) by simp
  with i have "\<exists>e'. gather_by_arrival ?run (arrivals (answer_time E) calls)
                  (replicate (length calls) None) = Inl e'"
    by (rule gather_by_arrival_raises)
  then obtain e' where
    "gather_by_arrival ?run (arrivals (answer_time E) calls)
       (replicate (length calls) None) = Inl e'" ..
  then show ?thesis
    by (simp add: run_calls_def bind_err_def)
qed

lemma tool_node_latest:
  "is_AIMessage m \<Longrightarrow> tool_node E (h @ [m]) = run_calls E (h @ [m]) (tool_calls m)"
  by (simp add: tool_node_def)


section \<open>Properties of the graph run\<close>

lemma run_graph_Suc:
  "n \<noteq> END \<Longrightarrow> run_graph E thread_id (Suc budget) n st =
     (let st1 = st\<lparr>visited := visited st @ [n]\<rparr> in
      case exec_node E n (messages st) of
        Inl e \<Rightarrow> (Inl e, st1)
      | Inr update \<Rightarrow>
          (let messages' = add_messages (messages st) update in
           case next_node E n messages' of
             Inl e \<Rightarrow> (Inl e, st1)
           | Inr n' \<Rightarrow>
               run_graph E thread_id budget n'
                 (st1\<lparr>messages := messages',
                      checkpoints := put (checkpoints st) thread_id messages'\<rparr>)))"
  by (cases n; hypsubst_thin; simp)

lemma load_alt:
  "load cps t = (if filter (\<lambda>cp. fst cp = t) cps = [] then []
                 else snd (last (filter (\<lambda>cp. fst cp = t) cps)))"
  by (simp add: load_def split: list.split)

lemma load_put_same: "load (put cps t ms) t = ms"
  by (simp add: load_alt put_def)

lemma load_apply_input: "load (apply_input cps t input) t = add_messages (load cps t) input"
  by (simp add: apply_input_def load_put_same)

lemma apply_input_rows:
  "apply_input cps t input
     = cps @ [(t, load cps t), (t, add_messages (load cps t) input)]"
  by (simp add: apply_input_def put_def)

lemma invoke_pos:
  "0 < budget \<Longrightarrow> invoke E budget cps t input =
     run_graph E t budget ChatNode
       \<lparr>messages = add_messages (load cps t) input,
        checkpoints = cps @ [(t, load cps t), (t, add_messages (load cps t) input)],
        visited = []\<rparr>"
  unfolding invoke_def Let_def load_apply_input by (simp add: apply_input_rows)

lemma tools_nonempty: "tools E \<noteq> []"
  by (simp add: tools_def)

lemma chat_node_eq: "chat_node E ms = bind_err (llm E (tools E) ms) (\<lambda>response. Inr [response])"
  by (simp add: chat_node_def llm_with_tools_def tools_nonempty)

lemma tools_condition_last:
  "tools_condition (h @ [m]) = Inr (if tool_calls m \<noteq> [] then ToolsNode else END)"
  by (simp add: tools_condition_def)

text \<open>One step of the chat node whose response carries a new id.\<close>

lemma chat_step:
  assumes "llm E (tools E) (messages st) = Inr response"
    and "message_id response \<notin> set (map message_id (messages st))"
  shows "run_graph E t (Suc b) ChatNode st =
           run_graph E t b (if tool_calls response \<noteq> [] then ToolsNode else END)
             (st\<lparr>visited := visited st @ [ChatNode],
                 messages := messages st @ [response],
                 checkpoints := put (checkpoints st) t (messages st @ [response])\<rparr>)"
  using assms
  by (simp add: run_graph_Suc exec_node_def chat_node_eq bind_err_def add_messages_one
      next_node_def tools_nonempty tools_condition_last Let_def)

text \<open>One step of the tool node that returns.\<close>

lemma tools_step:
  assumes "tool_node E (messages st) = Inr outs"
  shows "run_graph E t (Suc b) ToolsNode st =
           run_graph E t b ChatNode
             (st\<lparr>visited := visited st @ [ToolsNode],
                 messages := add_messages (messages st) outs,
                 checkpoints := put (checkpoints st) t (add_messages (messages st) outs)\<rparr>)"
  using assms
  by (simp add: run_graph_Suc exec_node_def next_node_def Let_def)

lemma length_alternate: "length (alternate n b) = b"
  by (induction b arbitrary: n) auto

lemma count_alternate:
  "length (filter (\<lambda>n. n = ChatNode) (alternate ChatNode b)) = (b + 1) div 2
 \<and> length (filter (\<lambda>n. n = ChatNode) (alternate ToolsNode b)) = b div 2
 \<and> length (filter (\<lambda>n. n = ToolsNode) (alternate ChatNode b)) = b div 2
 \<and> length (filter (\<lambda>n. n = ToolsNode) (alternate ToolsNode b)) = (b + 1) div 2"
  by (induction b) auto

text \<open>With a model that always asks for a tool and tools that the node never raises
  again, a run never reaches the end: it enters the two nodes in turn until the budget is
  used up.\<close>

lemma always_tools_loop:
  assumes always: "\<forall>ms. \<exists>response. llm E (tools E) ms = Inr response
            \<and> tool_calls response \<noteq> [] \<and> message_id response \<notin> set (map message_id ms)"
    and answered: "\<forall>t \<in> set (tools E). \<forall>args e.
            tool_func t args = Inl e \<longrightarrow> (\<exists>msg. e = ToolInvocationError msg)"
  shows "n = ChatNode \<or> (n = ToolsNode \<and> (\<exists>h m. messages st = h @ [m] \<and> is_AIMessage m)) \<Longrightarrow>
         fst (run_graph E t b n st) = Inl GraphRecursionError
       \<and> visited (snd (run_graph E t b n st)) = visited st @ alternate n b"
proof (induction b arbitrary: n st)
  case 0
  then show ?case by simp
next
  case (Suc b)
  from Suc.prems show ?case
  proof
    assume n: "n = ChatNode"
    obtain response where r: "llm E (tools E) (messages st) = Inr response"
      and tc: "tool_calls response \<noteq> []"
      and new: "message_id response \<notin> set (map message_id (messages st))"
      using always by blast
    let ?st2 = "st\<lparr>visited := visited st @ [ChatNode],
                   messages := messages st @ [response],
                   checkpoints := put (checkpoints st) t (messages st @ [response])\<rparr>"
    have step: "run_graph E t (Suc b) n st = run_graph E t b ToolsNode ?st2"
      using chat_step [OF r new] tc n by simp
    have "is_AIMessage response"
      using tc by (rule tool_calls_AI)
    then have "ToolsNode = ChatNode
        \<or> (ToolsNode = ToolsNode \<and> (\<exists>h m. messages ?st2 = h @ [m] \<and> is_AIMessage m))"
      by simp
    then have "fst (run_graph E t b ToolsNode ?st2) = Inl GraphRecursionError
        \<and> visited (snd (run_graph E t b ToolsNode ?st2)) = visited ?st2 @ alternate ToolsNode b"
      by (rule Suc.IH)
    with step n show ?thesis by simp
  next
    assume "n = ToolsNode \<and> (\<exists>h m. messages st = h @ [m] \<and> is_AIMessage m)"
    then obtain h m where n: "n = ToolsNode" and ms: "messages st = h @ [m]"
      and ai: "is_AIMessage m"
      by blast
    let ?run = "\<lambda>i. run_one (tools E) (uuid4 E (h @ [m]) i) (tool_calls m ! i)"
    have "\<forall>i. \<exists>v. ?run i = Inr v"
      using run_one_total [OF answered] by blast
    then obtain f where f: "\<forall>i. ?run i = Inr (f i)"
      by metis
    then have "run_calls E (h @ [m]) (tool_calls m) = Inr (map f [0..<length (tool_calls m)])"
      by (intro run_calls_returns) simp
    then have tn: "tool_node E (messages st) = Inr (map f [0..<length (tool_calls m)])"
      by (simp add: ms tool_node_latest [OF ai])
    let ?outs = "map f [0..<length (tool_calls m)]"
    let ?st2 = "st\<lparr>visited := visited st @ [ToolsNode],
                   messages := add_messages (messages st) ?outs,
                   checkpoints := put (checkpoints st) t (add_messages (messages st) ?outs)\<rparr>"
    have step: "run_graph E t (Suc b) n st = run_graph E t b ChatNode ?st2"
      using tools_step [OF tn] n by simp
    have "fst (run_graph E t b ChatNode ?st2) = Inl GraphRecursionError
        \<and> visited (snd (run_graph E t b ChatNode ?st2)) = visited ?st2 @ alternate ChatNode b"
      by (rule Suc.IH) simp
    with step n show ?thesis by simp
  qed
qed

lemma sample_id_new: "sample_id ms i \<notin> set (map message_id ms)"
proof
  assume "sample_id ms i \<in> set (map message_id ms)"
  then obtain m where m: "m \<in> set ms" and eq: "message_id m = sample_id ms i"
    by auto
  from m have "length (message_id m) \<le> length (concat (map message_id ms))"
    by (induction ms) auto
  with eq show False
    by (simp add: sample_id_def)
qed


lemma tools_unreachable:
  "tools (stub_env unreachable model)
     = [search_tool (stub_env unreachable model), build_itinerary (stub_env unreachable model)]"
  by (simp add: tools_def mcp_tools_def stub_env_def get_tools_def SERVERS_def
      unreachable_def bind_err_def load_mcp_tools_def)

lemma stub_env_answered:
  "\<forall>t \<in> set (tools (stub_env unreachable model)). \<forall>args e.
     tool_func t args = Inl e \<longrightarrow> (\<exists>msg. e = ToolInvocationError msg)"
  by (simp add: tools_unreachable) (simp add: search_tool_def build_itinerary_def stub_env_def)

text \<open>
  C1, as amended. The module sets no maximum of model and tool cycles and has no
  \<open>OrchestrationLimitExceeded\<close>. Let the recursion limit of the invocation be \<open>n\<close>, at
  least one; let every model response ask for at least one tool call and carry an id
  that is new to the history; and let no tool raise an exception that the tool node
  raises again. Then the invocation ends with the runtime's \<open>GraphRecursionError\<close> once
  the limit is used up: the chat node and the tool node are entered in turn, \<open>n\<close> times
  in all, that is \<open>(n + 1) div 2\<close> model calls and \<open>n div 2\<close> tool rounds.
\<close>

theorem recursion_limit_ends_tool_loop:
  assumes "0 < budget"
    and "\<forall>ms. \<exists>response. llm E (tools E) ms = Inr response
            \<and> tool_calls response \<noteq> [] \<and> message_id response \<notin> set (map message_id ms)"
    and "\<forall>t \<in> set (tools E). \<forall>args e.
            tool_func t args = Inl e \<longrightarrow> (\<exists>msg. e = ToolInvocationError msg)"
  shows "fst (invoke E budget cps t input) = Inl GraphRecursionError
       \<and> visited (snd (invoke E budget cps t input)) = alternate ChatNode budget
       \<and> length (visited (snd (invoke E budget cps t input))) = budget
       \<and> length (filter (\<lambda>n. n = ChatNode) (visited (snd (invoke E budget cps t input))))
           = (budget + 1) div 2
       \<and> length (filter (\<lambda>n. n = ToolsNode) (visited (snd (invoke E budget cps t input))))
           = budget div 2"
proof -
  let ?st0 = "\<lparr>messages = add_messages (load cps t) input,
               checkpoints = cps @ [(t, load cps t), (t, add_messages (load cps t) input)],
               visited = []\<rparr>"
  have "fst (run_graph E t budget ChatNode ?st0) = Inl GraphRecursionError
      \<and> visited (snd (run_graph E t budget ChatNode ?st0)) = visited ?st0 @ alternate ChatNode budget"
    by (rule always_tools_loop [OF assms(2) assms(3)]) simp
  then show ?thesis
    by (simp add: invoke_pos [OF assms(1)] count_alternate length_alternate)
qed

theorem recursion_limit_ends_tool_loop_witness:
  "fst (invoke looping_env 4 [] ''t1'' [HumanMessage ''u1'' ''Plan a trip''])
     = Inl GraphRecursionError
   \<and> visited (snd (invoke looping_env 4 [] ''t1'' [HumanMessage ''u1'' ''Plan a trip'']))
       = [ChatNode, ToolsNode, ChatNode, ToolsNode]"
proof -
  have a: "\<forall>ms. \<exists>response. llm looping_env (tools looping_env) ms = Inr response
          \<and> tool_calls response \<noteq> [] \<and> message_id response \<notin> set (map message_id ms)"
    using sample_id_new by (simp add: looping_env_def stub_env_def)
  have b: "\<forall>t \<in> set (tools looping_env). \<forall>args e.
            tool_func t args = Inl e \<longrightarrow> (\<exists>msg. e = ToolInvocationError msg)"
    unfolding looping_env_def by (rule stub_env_answered)
  have c: "0 < (4::nat)"
    by simp
  from recursion_limit_ends_tool_loop [OF c a b, of "[]" "''t1''" "[HumanMessage ''u1'' ''Plan a trip'']"]
  show ?thesis by (simp add: eval_nat_numeral)
qed

text \<open>
  C1 as stated fails: with a configured limit of 3 and a model that always asks for a
  tool, the turn ends after two model calls and one tool round, not after three cycles.
\<close>

theorem limit_counts_steps_not_cycles:
  "length (filter (\<lambda>n. n = ToolsNode)
     (visited (snd (invoke looping_env 3 [] ''t1'' [HumanMessage ''u1'' ''Plan a trip''])))) = 1
 \<and> length (filter (\<lambda>n. n = ChatNode)
     (visited (snd (invoke looping_env 3 [] ''t1'' [HumanMessage ''u1'' ''Plan a trip''])))) = 2"
  by code_simp

text \<open>
  C2. Let the recursion limit be at least two (one step for the chat node, one left on
  reaching the end), and let the model's response to the history with the input merged
  have no tool calls and an id that is new to that history. Then the invocation enters
  the chat node exactly once and returns, the thread's history is the merged history
  followed by exactly that one response, and the checkpointer has three new rows: the
  thread as it was, the merged input, and the history with the response.
\<close>

theorem plain_answer_ends_turn:
  assumes "1 < budget"
    and "llm E (tools E) (add_messages (load cps t) input) = Inr response"
    and "tool_calls response = []"
    and "message_id response \<notin> set (map message_id (add_messages (load cps t) input))"
  shows "invoke E budget cps t input =
           (Inr (),
            \<lparr>messages = add_messages (load cps t) input @ [response],
             checkpoints = cps @ [(t, load cps t),
                                  (t, add_messages (load cps t) input),
                                  (t, add_messages (load cps t) input @ [response])],
             visited = [ChatNode]\<rparr>)
       \<and> load (checkpoints (snd (invoke E budget cps t input))) t
           = load (apply_input cps t input) t @ [response]"
proof -
  obtain b where b: "budget = Suc (Suc b)"
    using assms(1) by (cases budget; cases "budget - 1") auto
  let ?merged = "add_messages (load cps t) input"
  let ?st0 = "\<lparr>messages = ?merged, checkpoints = cps @ [(t, load cps t), (t, ?merged)],
               visited = []\<rparr>"
  have pos: "0 < budget"
    using assms(1) by simp
  have r: "llm E (tools E) (messages ?st0) = Inr response"
    using assms(2) by simp
  have new: "message_id response \<notin> set (map message_id (messages ?st0))"
    using assms(4) by simp
  have "invoke E budget cps t input = run_graph E t (Suc (Suc b)) ChatNode ?st0"
    using invoke_pos [OF pos] b by simp
  also have "\<dots> = run_graph E t (Suc b) END
                      (?st0\<lparr>visited := visited ?st0 @ [ChatNode],
                            messages := messages ?st0 @ [response],
                            checkpoints := put (checkpoints ?st0) t (messages ?st0 @ [response])\<rparr>)"
    using chat_step [OF r new] assms(3) by simp
  also have "\<dots> = (Inr (),
            \<lparr>messages = ?merged @ [response],
             checkpoints = cps @ [(t, load cps t), (t, ?merged), (t, ?merged @ [response])],
             visited = [ChatNode]\<rparr>)"
    by (simp add: put_def)
  finally have inv: "invoke E budget cps t input =
           (Inr (),
            \<lparr>messages = ?merged @ [response],
             checkpoints = cps @ [(t, load cps t), (t, ?merged), (t, ?merged @ [response])],
             visited = [ChatNode]\<rparr>)" .
  have "load (cps @ [(t, load cps t), (t, ?merged), (t, ?merged @ [response])]) t
          = ?merged @ [response]"
    using load_put_same [of "cps @ [(t, load cps t), (t, ?merged)]" t "?merged @ [response]"]
    by (simp add: put_def)
  with inv show ?thesis
    by (simp add: load_apply_input)
qed

theorem plain_answer_ends_turn_witness:
  "invoke answering_env 25 [] ''t1'' [HumanMessage ''u1'' ''Hello''] =
     (Inr (),
      \<lparr>messages = [HumanMessage ''u1'' ''Hello'', AIMessage ''mu1'' ''Bon voyage'' []],
       checkpoints = [(''t1'', []),
                      (''t1'', [HumanMessage ''u1'' ''Hello'']),
                      (''t1'', [HumanMessage ''u1'' ''Hello'',
                                AIMessage ''mu1'' ''Bon voyage'' []])],
       visited = [ChatNode]\<rparr>)"
proof -
  have m: "add_messages (load [] ''t1'') [HumanMessage ''u1'' ''Hello'']
             = [HumanMessage ''u1'' ''Hello'']"
    by (simp add: load_def add_messages_def merge_message_def)
  have a: "llm answering_env (tools answering_env)
             (add_messages (load [] ''t1'') [HumanMessage ''u1'' ''Hello''])
          = Inr (AIMessage ''mu1'' ''Bon voyage'' [])"
    by (simp add: m) (simp add: answering_env_def stub_env_def sample_id_def)
  have b: "tool_calls (AIMessage ''mu1'' ''Bon voyage'' []) = []"
    by simp
  have c: "message_id (AIMessage ''mu1'' ''Bon voyage'' [])
             \<notin> set (map message_id (add_messages (load [] ''t1'') [HumanMessage ''u1'' ''Hello'']))"
    by (simp add: m)
  have d: "1 < (25::nat)"
    by simp
  from plain_answer_ends_turn [OF d a b c]
  show ?thesis by (simp add: m) (simp add: load_def)
qed

section \<open>Properties of a turn with tool calls\<close>







section \<open>Properties of the tool aggregation\<close>

lemma gather_fails: "Inl e \<in> set rs \<Longrightarrow> \<exists>e'. gather rs = Inl e'"
  by (induction rs) (auto simp: bind_err_def split: sum.splits)

lemma gather_map: "\<forall>s \<in> set xs. f s = Inr (g s) \<Longrightarrow> gather (map f xs) = Inr (map g xs)"
  by (induction xs) (auto simp: bind_err_def)

lemma mcp_tools_failed:
  assumes "gather (map (discover E) SERVERS) = Inl e'"
  shows "load_mcp_tools (get_tools (discover E)) = ([e'], [])"
  by (simp add: get_tools_def assms bind_err_def load_mcp_tools_def)

text \<open>
  C4, as amended. When discovery on one of the configured servers fails, building the
  tool list still succeeds, a warning is printed, and the list holds exactly the two
  local tools: the tools of every remote server are absent, not only those of the server
  that failed.
\<close>

theorem failed_discovery_leaves_local_tools:
  assumes "s \<in> set SERVERS" and "discover E s = Inl e"
  shows "tools E = [search_tool E, build_itinerary E]
       \<and> fst (load_mcp_tools (get_tools (discover E))) \<noteq> []"
proof -
  from assms(1) have "discover E s \<in> discover E ` set SERVERS"
    by (rule imageI)
  then have "Inl e \<in> set (map (discover E) SERVERS)"
    by (simp only: assms(2) set_map)
  then have "\<exists>e'. gather (map (discover E) SERVERS) = Inl e'"
    by (rule gather_fails)
  then obtain e' where "gather (map (discover E) SERVERS) = Inl e'" ..
  then have "load_mcp_tools (get_tools (discover E)) = ([e'], [])"
    by (rule mcp_tools_failed)
  then show ?thesis
    by (simp add: tools_def mcp_tools_def)
qed

theorem failed_discovery_leaves_local_tools_witness:
  "''flight'' \<in> set SERVERS
   \<and> discover flight_down_env ''flight'' = Inl (OtherError ''unreachable'')
   \<and> map tool_name (tools flight_down_env) = [''duckduckgo_search'', ''build_itinerary'']"
proof -
  have a: "''flight'' \<in> set SERVERS" by (simp add: SERVERS_def)
  have b: "discover flight_down_env ''flight'' = Inl (OtherError ''unreachable'')"
    by (simp add: flight_down_env_def stub_env_def flight_down_def)
  from failed_discovery_leaves_local_tools [OF a b] a b
  show ?thesis by (simp add: search_tool_def build_itinerary_def)
qed

text \<open>
  C4 as stated fails: the hotel server is reachable and offers \<open>search_hotels\<close>, the
  flight server is not, and \<open>search_hotels\<close> is missing from the tool list.
\<close>

theorem reachable_server_tools_dropped:
  "discover flight_down_env ''hotel'' = Inr [hotel_tool]
   \<and> tool_name hotel_tool = ''search_hotels''
   \<and> ''search_hotels'' \<notin> set (map tool_name (tools flight_down_env))"
  by (simp add: flight_down_env_def stub_env_def flight_down_def hotel_tool_def tools_def
      mcp_tools_def get_tools_def SERVERS_def bind_err_def load_mcp_tools_def search_tool_def
      build_itinerary_def)

text \<open>
  C5, as amended. Building the tool list has no check of names and no
  \<open>DuplicateToolName\<close>: when discovery succeeds on every server, the list is the two local
  tools followed by every discovered tool, in the order of the servers, whether a name is
  new or already taken.
\<close>

theorem aggregation_accepts_any_name:
  assumes "\<forall>s \<in> set SERVERS. discover E s = Inr (found s)"
  shows "tools E = [search_tool E, build_itinerary E] @ concat (map found SERVERS)"
  using gather_map [OF assms]
  by (simp add: tools_def mcp_tools_def get_tools_def bind_err_def load_mcp_tools_def)

theorem aggregation_accepts_any_name_witness:
  "tools hotel_clash_env
     = [search_tool hotel_clash_env, build_itinerary hotel_clash_env, remote_itinerary]"
proof -
  have a: "\<forall>s \<in> set SERVERS. discover hotel_clash_env s
        = Inr (if s = ''hotel'' then [remote_itinerary] else [])"
    by (simp add: hotel_clash_env_def stub_env_def hotel_clash_def)
  from aggregation_accepts_any_name [OF a]
  show ?thesis by (simp add: SERVERS_def)
qed

text \<open>
  C5 as stated fails: a discovered tool named \<open>build_itinerary\<close> is added although the
  local tool of that name is in the list already.
\<close>

theorem duplicate_name_is_registered:
  "map tool_name (tools hotel_clash_env)
     = [''duckduckgo_search'', ''build_itinerary'', ''build_itinerary'']"
  by (simp add: hotel_clash_env_def stub_env_def hotel_clash_def remote_itinerary_def tools_def
      mcp_tools_def get_tools_def SERVERS_def bind_err_def load_mcp_tools_def search_tool_def
      build_itinerary_def)

lemma tools_llm_update: "tools (E\<lparr>llm := f\<rparr>) = tools E"
  by (simp add: tools_def mcp_tools_def search_tool_def build_itinerary_def)

lemma run_calls_llm_update: "run_calls (E\<lparr>llm := f\<rparr>) ms calls = run_calls E ms calls"
  by (simp add: run_calls_def tools_llm_update)

lemma tool_node_llm_update: "tool_node (E\<lparr>llm := f\<rparr>) ms = tool_node E ms"
  by (simp add: tool_node_def run_calls_llm_update split: option.split)

lemma exec_node_llm_update:
  "exec_node (E\<lparr>llm := \<lambda>catalog. llm E (tools E)\<rparr>) n ms = exec_node E n ms"
  by (simp add: exec_node_def chat_node_eq tools_llm_update tool_node_llm_update
      split: node.split)

lemma next_node_llm_update: "next_node (E\<lparr>llm := f\<rparr>) n ms = next_node E n ms"
  by (simp add: next_node_def tools_llm_update)

lemma run_graph_llm_update:
  "run_graph (E\<lparr>llm := \<lambda>catalog. llm E (tools E)\<rparr>) t b n st = run_graph E t b n st"
proof (induction b arbitrary: n st)
  case 0
  then show ?case by simp
next
  case (Suc b)
  show ?case
  proof (cases "n = END")
    case True
    then show ?thesis by simp
  next
    case False
    show ?thesis
      by (simp add: run_graph_Suc [OF False] exec_node_llm_update next_node_llm_update Suc.IH
          cong: sum.case_cong)
  qed
qed

text \<open>
  C6. The tool list is the two local tools followed by the discovered ones, in that
  order; the model is bound to it once, and every call of the chat node presents that
  same list: an invocation runs the same whatever the model would answer to any other
  list.
\<close>

theorem same_catalog_on_every_model_call:
  "tools E = search_tool E # build_itinerary E # mcp_tools E
 \<and> llm_with_tools E = llm E (tools E)
 \<and> chat_node E history = bind_err (llm E (tools E) history) (\<lambda>response. Inr [response])
 \<and> invoke (E\<lparr>llm := \<lambda>catalog. llm E (tools E)\<rparr>) budget cps t input = invoke E budget cps t input"
  by (simp add: chat_node_eq llm_with_tools_def tools_nonempty invoke_def run_graph_llm_update)
    (simp add: tools_def)

section \<open>Properties of the saved threads\<close>

lemma foldl_insert_fst: "foldl (\<lambda>threads cp. insert (fst cp) threads) A xs = A \<union> fst ` set xs"
  by (induction xs arbitrary: A) auto

lemma alist_threads_eq: "alist_threads cps = fst ` set cps"
  by (simp add: alist_threads_def alist_def foldl_insert_fst)

lemma threads_put: "alist_threads (put cps t ms) = insert t (alist_threads cps)"
  by (simp add: alist_threads_eq put_def)




text \<open>A run writes rows of its own thread only.\<close>

lemma run_graph_threads:
  "t \<in> alist_threads (checkpoints st) \<Longrightarrow>
   alist_threads (checkpoints (snd (run_graph E t b n st))) = alist_threads (checkpoints st)"
proof (induction b arbitrary: n st)
  case 0
  then show ?case by simp
next
  case (Suc b)
  show ?case
  proof (cases "n = END")
    case True
    then show ?thesis by simp
  next
    case False
    show ?thesis
    proof (cases "exec_node E n (messages st)")
      case (Inl e)
      then show ?thesis by (simp add: run_graph_Suc [OF False])
    next
      case (Inr update)
      let ?st2 = "st\<lparr>visited := visited st @ [n], messages := add_messages (messages st) update,
                    checkpoints := put (checkpoints st) t (add_messages (messages st) update)\<rparr>"
      have th: "alist_threads (checkpoints ?st2) = alist_threads (checkpoints st)"
        using Suc.prems by (auto simp: threads_put)
      show ?thesis
      proof (cases "next_node E n (add_messages (messages st) update)")
        case (Inl e)
        with Inr show ?thesis by (simp add: run_graph_Suc [OF False] Let_def)
      next
        case (Inr n')
        have "alist_threads (checkpoints (snd (run_graph E t b n' ?st2)))
                = alist_threads (checkpoints ?st2)"
          using Suc.prems th by (intro Suc.IH) simp
        with Inr th \<open>exec_node E n (messages st) = Inr update\<close> show ?thesis
          by (simp add: run_graph_Suc [OF False] Let_def)
      qed
    qed
  qed
qed



lemma load_unknown: "t \<notin> retrieve_all_threads cps \<Longrightarrow> load cps t = []"
proof -
  assume "t \<notin> retrieve_all_threads cps"
  then have "\<forall>cp \<in> set cps. fst cp \<noteq> t"
    by (auto simp: retrieve_all_threads_def alist_threads_eq)
  then have "filter (\<lambda>cp. fst cp = t) cps = []"
    by (simp add: filter_empty_conv)
  then show ?thesis by (simp add: load_def)
qed

lemma apply_input_threads:
  "retrieve_all_threads (apply_input cps t input) = insert t (retrieve_all_threads cps)"
  by (simp add: retrieve_all_threads_def apply_input_def threads_put)

lemma invoke_threads:
  assumes "0 < b"
  shows "retrieve_all_threads (checkpoints (snd (invoke E b cps t input)))
           = insert t (retrieve_all_threads cps)"
proof -
  let ?st0 = "\<lparr>messages = load (apply_input cps t input) t,
               checkpoints = apply_input cps t input, visited = []\<rparr>"
  have inv: "invoke E b cps t input = run_graph E t b ChatNode ?st0"
    using assms by (simp add: invoke_def Let_def)
  have th0: "alist_threads (checkpoints ?st0) = insert t (alist_threads cps)"
    using apply_input_threads [of cps t input] by (simp add: retrieve_all_threads_def)
  then have "t \<in> alist_threads (checkpoints ?st0)"
    by simp
  then have "alist_threads (checkpoints (snd (run_graph E t b ChatNode ?st0)))
               = alist_threads (checkpoints ?st0)"
    by (rule run_graph_threads)
  with inv th0 show ?thesis
    by (simp add: retrieve_all_threads_def)
qed






text \<open>
  C8. A thread id that \<open>retrieve_all_threads\<close> does not list has no messages (loading it
  gives the empty sequence, not an error), and a first user message for it, sent through
  an invocation with a recursion limit of at least one and any outcome, or merged alone,
  adds exactly that id to the listed threads.
\<close>

theorem new_thread_starts_empty_and_is_listed:
  assumes "t \<notin> retrieve_all_threads cps" and "0 < budget"
  shows "load cps t = []
       \<and> retrieve_all_threads (checkpoints (snd (invoke E budget cps t [HumanMessage i u])))
           = insert t (retrieve_all_threads cps)
       \<and> retrieve_all_threads (apply_input cps t [HumanMessage i u])
           = insert t (retrieve_all_threads cps)"
proof -
  have a: "load cps t = []"
    using assms(1) by (rule load_unknown)
  have b: "retrieve_all_threads (checkpoints (snd (invoke E budget cps t [HumanMessage i u])))
             = insert t (retrieve_all_threads cps)"
    using assms(2) by (rule invoke_threads)
  have c: "retrieve_all_threads (apply_input cps t [HumanMessage i u])
             = insert t (retrieve_all_threads cps)"
    by (rule apply_input_threads)
  from a b c show ?thesis by (intro conjI)
qed

theorem new_thread_starts_empty_and_is_listed_witness:
  "''t2'' \<notin> retrieve_all_threads [(''t1'', [HumanMessage ''u1'' ''Hello''])]
   \<and> load [(''t1'', [HumanMessage ''u1'' ''Hello''])] ''t2'' = []
   \<and> retrieve_all_threads (checkpoints (snd (invoke answering_env 25
         [(''t1'', [HumanMessage ''u1'' ''Hello''])] ''t2'' [HumanMessage ''u2'' ''Plan a trip''])))
       = {''t1'', ''t2''}"
proof -
  have h: "''t2'' \<notin> retrieve_all_threads [(''t1'', [HumanMessage ''u1'' ''Hello''])]"
    by (simp add: retrieve_all_threads_def alist_threads_def alist_def)
  have r: "retrieve_all_threads [(''t1'', [HumanMessage ''u1'' ''Hello''])] = {''t1''}"
    by (simp add: retrieve_all_threads_def alist_threads_def alist_def)
  have pos: "0 < (25::nat)"
    by simp
  from new_thread_starts_empty_and_is_listed
         [OF h pos, of answering_env "''u2''" "''Plan a trip''"] h
  show ?thesis
    by (simp only: r) auto
qed

end
